theory Spec2Isabelle
  imports Main "HOL-Library.Word"
begin

section \<open>JavaScript strings\<close>

text \<open>
  A JavaScript string is a sequence of UTF-16 code units.  String literals of the
  source are ASCII throughout, so \<open>js_of\<close> embeds an ASCII literal unit by unit.
\<close>

type_synonym jschar = "16 word"
type_synonym jsstring = "jschar list"

definition js_of :: "string \<Rightarrow> jsstring" where
  "js_of = map (\<lambda>c. of_nat (of_char c))"

definition LF :: jschar where
  "LF = 0x0A"

text \<open>
  \<open>String.prototype.trim\<close> removes leading and trailing WhiteSpace and
  LineTerminator code points (ECMA-262): TAB, VT, FF, SP, NBSP, ZWNBSP, the
  space separators of Unicode, LF, CR, LS and PS.  All of them are single code units.
\<close>

definition is_js_whitespace :: "jschar \<Rightarrow> bool" where
  "is_js_whitespace c =
     (c = 0x0009 \<or> c = 0x000A \<or> c = 0x000B \<or> c = 0x000C \<or> c = 0x000D \<or>
      c = 0x0020 \<or> c = 0x00A0 \<or> c = 0x1680 \<or> (0x2000 \<le> c \<and> c \<le> 0x200A) \<or>
      c = 0x2028 \<or> c = 0x2029 \<or> c = 0x202F \<or> c = 0x205F \<or> c = 0x3000 \<or>
      c = 0xFEFF)"

definition trim :: "jsstring \<Rightarrow> jsstring" where
  "trim s = rev (dropWhile is_js_whitespace (rev (dropWhile is_js_whitespace s)))"

text \<open>\<open>s.includes(t)\<close>: \<open>t\<close> occurs in \<open>s\<close> as a contiguous run.\<close>

fun js_includes :: "jsstring \<Rightarrow> jsstring \<Rightarrow> bool" where
  "js_includes [] t = (t = [])"
| "js_includes (c # cs) t = (take (length t) (c # cs) = t \<or> js_includes cs t)"

section \<open>Values shared by the components\<close>

text \<open>
  An exception thrown by the engine itself: reading or writing a property of
  \<open>undefined\<close>.  A handler that throws has already performed the writes before the
  throwing statement, so a completion carries the state in both cases.
\<close>

datatype js_exception = TypeError

datatype 'a completion = Normal 'a | Throw js_exception 'a

fun state_of :: "'a completion \<Rightarrow> 'a" where
  "state_of (Normal s) = s"
| "state_of (Throw e s) = s"

text \<open>
  The value a host promise rejects with is an error object; its \<open>message\<close>
  property is a string or missing.
\<close>

datatype js_error = Error (message: "jsstring option")

datatype 'a settled = Resolved 'a | Rejected js_error

text \<open>
  What a service call resolves with: nothing usable (\<open>undefined\<close>, or an object
  without a \<open>yaml\<close> property), or an object whose \<open>yaml\<close> property is the
  given string.
\<close>

datatype service_result = NoResult | Yaml jsstring

text \<open>The test \<open>result && result.yaml\<close>: an empty string is falsy.\<close>

fun has_yaml :: "service_result \<Rightarrow> bool" where
  "has_yaml NoResult = False"
| "has_yaml (Yaml y) = (y \<noteq> [])"

fun yaml_of :: "service_result \<Rightarrow> jsstring" where
  "yaml_of NoResult = []"
| "yaml_of (Yaml y) = y"

text \<open>
  The host object \<open>hass\<close> as a test double.  Each asynchronous operation settles:
  \<^item> \<open>create_automation d\<close> is how the service call
    \<open>ai_automation_creator.create_automation\<close> with description \<open>d\<close> settles;
  \<^item> \<open>get_automation_yaml k\<close> is how the \<open>k\<close>-th call (counted from 0) of
    \<open>ai_automation_creator.get_automation_yaml\<close> within one submission settles;
  \<^item> \<open>callApi\<close> is how \<open>GET config/automation/config/0\<close> settles, the resolved
    value being the text \<open>JSON.stringify\<close> makes of the returned object;
  \<^item> \<open>states\<close> lists the keys of the \<open>hass.states\<close> object;
  \<^item> \<open>latest_automation\<close> is \<open>hass.data?.ai_automation_creator?.latest_automation\<close>,
    \<open>None\<close> when any link of that chain is missing.
\<close>

record hass =
  create_automation :: "jsstring \<Rightarrow> service_result settled"
  get_automation_yaml :: "nat \<Rightarrow> service_result settled"
  callApi :: "jsstring settled"
  states :: "jsstring list"
  latest_automation :: "jsstring option"

text \<open>
  The calls a handler makes on the host and the timers it sets, in order.  Calls of
  the element's own \<open>render\<close> and \<open>requestUpdate\<close> write no property and are
  not recorded.
\<close>

datatype effect =
    CreateAutomationCall jsstring
  | GetAutomationYamlCall
  | CallApiGet
  | SetTimeout nat

text \<open>The properties every variant of the element declares.\<close>

record element =
  userInput :: jsstring
  isProcessing :: bool
  automationYaml :: jsstring
  automationCreated :: bool

section \<open>The guided conversation element\<close>

record step =
  question :: jsstring
  answer :: jsstring

datatype sender = User | Assistant

record chat_message =
  sender :: sender
  content :: jsstring

record guided = element +
  conversation :: "chat_message list"
  currentStep :: nat
  automationSteps :: "step list"

definition "constructor" :: guided where
  "constructor =
     \<lparr> userInput = [], isProcessing = False, automationYaml = [], automationCreated = False,
       conversation = [], currentStep = 0,
       automationSteps =
         [ \<lparr> question = js_of ''What would you like this automation to do? (Describe in natural language)'', answer = [] \<rparr>,
           \<lparr> question = js_of ''When should this automation trigger? (Time, event, condition, etc.)'', answer = [] \<rparr>,
           \<lparr> question = js_of ''Which devices or entities should be involved?'', answer = [] \<rparr>,
           \<lparr> question = js_of ''Are there any conditions that should be met before the automation runs?'', answer = [] \<rparr>,
           \<lparr> question = js_of ''Is there anything else I should know about this automation?'', answer = [] \<rparr> ] \<rparr>"

text \<open>
  \<open>connectedCallback\<close> of \<open>main.js\<close> seeds the log with the first question when
  the log is empty (the unnamed variant seeds it unconditionally).  Reading
  \<open>automationSteps[0].question\<close> of an empty array throws.
\<close>

definition connectedCallback :: "guided \<Rightarrow> guided completion" where
  "connectedCallback s =
     (if length (conversation s) = 0 then
        (case automationSteps s of
           [] \<Rightarrow> Throw TypeError s
         | st # _ \<Rightarrow> Normal (s\<lparr>conversation := [\<lparr>sender = Assistant, content = question st\<rparr>]\<rparr>))
      else Normal s)"

text \<open>The \<open>@input\<close> listener of the text area.\<close>

definition on_input :: "jsstring \<Rightarrow> guided \<Rightarrow> guided" where
  "on_input v s = s\<lparr>userInput := v\<rparr>"

text \<open>
  \<open>handleSend\<close>.  The user message is appended before the answer is stored, so
  when \<open>currentStep\<close> is not an index of \<open>automationSteps\<close> the store throws with
  the log already extended.
\<close>

definition handleSend :: "guided \<Rightarrow> guided completion" where
  "handleSend s =
     (if trim (userInput s) = [] then Normal s
      else
        let s1 = s\<lparr>conversation := conversation s @ [\<lparr>sender = User, content = userInput s\<rparr>]\<rparr>
        in if \<not> currentStep s1 < length (automationSteps s1) then Throw TypeError s1
           else
             let s2 = s1\<lparr>automationSteps :=
                          (automationSteps s1)[currentStep s1 :=
                             (automationSteps s1 ! currentStep s1)\<lparr>answer := userInput s1\<rparr>]\<rparr>;
                 s3 = s2\<lparr>userInput := []\<rparr>
             in if int (currentStep s3) < int (length (automationSteps s3)) - 1 then
                  let s4 = s3\<lparr>currentStep := currentStep s3 + 1\<rparr>
                  in Normal (s4\<lparr>conversation := conversation s4 @
                       [\<lparr>sender = Assistant,
                         content = question (automationSteps s4 ! currentStep s4)\<rparr>]\<rparr>)
                else Normal (s3\<lparr>currentStep := length (automationSteps s3)\<rparr>))"

text \<open>
  \<open>startOver\<close>.  Every answer is cleared first; the first question is read last,
  which throws on an empty step list.
\<close>

definition startOver :: "guided \<Rightarrow> guided completion" where
  "startOver s =
     (let s1 = s\<lparr>conversation := [], userInput := [], automationYaml := [],
                 automationCreated := False, currentStep := 0\<rparr>;
          s2 = s1\<lparr>automationSteps := map (\<lambda>st. st\<lparr>answer := []\<rparr>) (automationSteps s1)\<rparr>
      in case automationSteps s2 of
           [] \<Rightarrow> Throw TypeError s2
         | st # _ \<Rightarrow> Normal (s2\<lparr>conversation := [\<lparr>sender = Assistant, content = question st\<rparr>]\<rparr>))"

text \<open>
  \<open>createAutomation\<close> builds the description with a \<open>forEach\<close> loop that appends,
  for each step in array order, the question, a line feed, the answer and two line
  feeds to an accumulator that starts empty.
\<close>

definition fullDescription :: "step list \<Rightarrow> jsstring" where
  "fullDescription steps =
     foldl (\<lambda>acc st. acc @ question st @ [LF] @ answer st @ [LF, LF]) [] steps"

text \<open>The synchronous part of \<open>createAutomation\<close>, up to the service call.\<close>

definition createAutomation_begin :: "guided \<Rightarrow> guided" where
  "createAutomation_begin s = s\<lparr>isProcessing := True\<rparr>"

text \<open>The callback run when the creation call resolves; its argument is ignored.\<close>

definition create_resolved :: "guided \<Rightarrow> guided" where
  "create_resolved s =
     (let s1 = s\<lparr>conversation := conversation s @
                 [\<lparr>sender = Assistant,
                   content = js_of ''I've created your automation! You can find it in your automations.yaml file or in the automation editor.''\<rparr>]\<rparr>
      in s1\<lparr>automationCreated := True, isProcessing := False\<rparr>)"

text \<open>
  The callback run when the creation call rejects.  String concatenation renders a
  missing \<open>message\<close> as the text \<open>undefined\<close>.
\<close>

definition create_rejected :: "js_error \<Rightarrow> guided \<Rightarrow> guided" where
  "create_rejected error s =
     (let s1 = s\<lparr>conversation := conversation s @
                 [\<lparr>sender = Assistant,
                   content = js_of ''Sorry, there was an error creating your automation: '' @
                     (case message error of None \<Rightarrow> js_of ''undefined'' | Some m \<Rightarrow> m)\<rparr>]\<rparr>
      in s1\<lparr>isProcessing := False\<rparr>)"

text \<open>
  The callbacks of the follow-up \<open>callApi\<close>.  The rejection handler is that of
  \<open>main.js\<close>; the unnamed variant installs none.
\<close>

definition api_resolved :: "jsstring \<Rightarrow> guided \<Rightarrow> guided" where
  "api_resolved automation s = s\<lparr>automationYaml := automation\<rparr>"

definition api_rejected :: "guided \<Rightarrow> guided" where
  "api_rejected s =
     s\<lparr>automationYaml := js_of ''Automation created successfully, but couldn't retrieve the YAML.''\<rparr>"

text \<open>
  One whole run of \<open>createAutomation\<close> against the host double, no other handler
  running in between: the final state and the host calls made.
\<close>

definition createAutomation :: "hass \<Rightarrow> guided \<Rightarrow> guided \<times> effect list" where
  "createAutomation h s =
     (let s1 = createAutomation_begin s;
          d = fullDescription (automationSteps s1)
      in case create_automation h d of
           Resolved result \<Rightarrow>
             (let s2 = create_resolved s1
              in case callApi h of
                   Resolved automation \<Rightarrow>
                     (api_resolved automation s2, [CreateAutomationCall d, CallApiGet])
                 | Rejected error \<Rightarrow>
                     (api_rejected s2, [CreateAutomationCall d, CallApiGet]))
         | Rejected error \<Rightarrow> (create_rejected error s1, [CreateAutomationCall d]))"

text \<open>
  Everything that can run a handler of the guided element: the host attaching it, the
  listeners of the rendered controls, and the settling of the two promises.
\<close>

datatype guided_event =
    Connected
  | InputEvent jsstring
  | SendClick
  | CreateClick
  | CreateSettled "service_result settled"
  | ApiSettled "jsstring settled"
  | StartOverClick

fun fire :: "guided_event \<Rightarrow> guided \<Rightarrow> guided completion" where
  "fire Connected s = connectedCallback s"
| "fire (InputEvent v) s = Normal (on_input v s)"
| "fire SendClick s = handleSend s"
| "fire CreateClick s = Normal (createAutomation_begin s)"
| "fire (CreateSettled (Resolved result)) s = Normal (create_resolved s)"
| "fire (CreateSettled (Rejected error)) s = Normal (create_rejected error s)"
| "fire (ApiSettled (Resolved automation)) s = Normal (api_resolved automation s)"
| "fire (ApiSettled (Rejected error)) s = Normal (api_rejected s)"
| "fire StartOverClick s = startOver s"

text \<open>
  What \<open>render\<close> shows once the host object is set (before that, \<open>main.js\<close>
  shows a loading line).  While not processing, \<open>renderConversation\<close> reads
  \<open>automationSteps[currentStep].question\<close>; when \<open>currentStep\<close> is not an index
  of the array the element read is \<open>undefined\<close> and the property access throws.
\<close>

datatype question_area =
    Processing
  | CurrentQuestion (prompt: jsstring) (input_value: jsstring) (send_disabled: bool)

record conversation_view =
  messages :: "chat_message list"
  area :: question_area
  create_button :: "bool option"

datatype view = ConversationView conversation_view | ResultView jsstring

definition renderConversation :: "guided \<Rightarrow> js_exception + conversation_view" where
  "renderConversation s =
     (if \<not> isProcessing s \<and> \<not> currentStep s < length (automationSteps s) then Inl TypeError
      else Inr
        \<lparr> messages = conversation s,
          area = (if isProcessing s then Processing
                  else CurrentQuestion (question (automationSteps s ! currentStep s))
                         (userInput s) (userInput s = [])),
          create_button = (if currentStep s \<ge> length (automationSteps s)
                           then Some (isProcessing s) else None) \<rparr>)"

definition render :: "guided \<Rightarrow> js_exception + view" where
  "render s =
     (if automationCreated s then Inr (ResultView (automationYaml s))
      else case renderConversation s of
             Inl e \<Rightarrow> Inl e
           | Inr v \<Rightarrow> Inr (ConversationView v))"

text \<open>Sending the given answers one after the other: type, then press Send.\<close>

fun send_all :: "jsstring list \<Rightarrow> guided \<Rightarrow> guided completion" where
  "send_all [] s = Normal s"
| "send_all (a # as) s =
     (case handleSend (on_input a s) of
        Normal s' \<Rightarrow> send_all as s'
      | Throw e s' \<Rightarrow> Throw e s')"

section \<open>The single-input panel of \<open>main.js\<close>\<close>

record panel = element +
  errorMessage :: "jsstring option"

definition panel_constructor :: panel where
  "panel_constructor =
     \<lparr> userInput = [], isProcessing = False, automationYaml = [], automationCreated = False,
       errorMessage = None \<rparr>"

text \<open>\<open>a || b\<close> on an optional string: a missing or empty \<open>a\<close> gives \<open>b\<close>.\<close>

fun or_else :: "jsstring option \<Rightarrow> jsstring \<Rightarrow> jsstring" where
  "or_else None b = b"
| "or_else (Some a) b = (if a = [] then b else a)"

definition handleError :: "js_error \<Rightarrow> panel \<Rightarrow> panel" where
  "handleError error s =
     s\<lparr>isProcessing := False,
       errorMessage := Some (js_of ''Error: '' @
         or_else (message error) (js_of ''Failed to create automation''))\<rparr>"

definition success_marker :: jsstring where
  "success_marker = js_of ''persistent_notification.ai_automation_creator_success''"

text \<open>
  One whole run of \<open>generateAutomation\<close> against the host double.  The promise chain
  is: creation call; on resolution (value ignored) a 2000 ms timer; the first
  \<open>get_automation_yaml\<close> call; when its result has no \<open>yaml\<close>, a 1000 ms timer, a
  scan of the keys of \<open>hass.states\<close> and a second \<open>get_automation_yaml\<close> call.
  A rejection anywhere goes to \<open>handleError\<close>.  The host's \<open>states\<close> is an object
  and its \<open>callService\<close> returns a promise, so nothing inside the \<open>try\<close> block
  throws synchronously.
\<close>

definition generateAutomation :: "hass \<Rightarrow> panel \<Rightarrow> panel \<times> effect list" where
  "generateAutomation h s =
     (if trim (userInput s) = [] \<or> isProcessing s then (s, [])
      else
        let s1 = s\<lparr>isProcessing := True, errorMessage := None\<rparr>;
            d = userInput s1
        in case create_automation h d of
             Rejected error \<Rightarrow> (handleError error s1, [CreateAutomationCall d])
           | Resolved _ \<Rightarrow>
              (case get_automation_yaml h 0 of
                 Rejected error \<Rightarrow>
                   (handleError error s1,
                    [CreateAutomationCall d, SetTimeout 2000, GetAutomationYamlCall])
               | Resolved result \<Rightarrow>
                   if has_yaml result then
                     (s1\<lparr>automationYaml := yaml_of result, isProcessing := False,
                         automationCreated := True\<rparr>,
                      [CreateAutomationCall d, SetTimeout 2000, GetAutomationYamlCall])
                   else
                     let created = list_ex (\<lambda>key. js_includes key success_marker) (states h)
                     in case get_automation_yaml h 1 of
                          Resolved result2 \<Rightarrow>
                            (s1\<lparr>automationYaml :=
                                  (if has_yaml result2 then yaml_of result2
                                   else if created then
                                     js_of ''Automation was created successfully and added to your automations.yaml file.''
                                   else
                                     js_of ''Automation has been processed. Please check your automations.yaml file.''),
                                isProcessing := False, automationCreated := True\<rparr>,
                             [CreateAutomationCall d, SetTimeout 2000, GetAutomationYamlCall,
                              SetTimeout 1000, GetAutomationYamlCall])
                        | Rejected error \<Rightarrow>
                            (handleError error s1,
                             [CreateAutomationCall d, SetTimeout 2000, GetAutomationYamlCall,
                              SetTimeout 1000, GetAutomationYamlCall])))"

definition reset :: "panel \<Rightarrow> panel" where
  "reset s = s\<lparr>userInput := [], automationYaml := [], automationCreated := False,
               errorMessage := None\<rparr>"

text \<open>What the panel shows once the host is attached: the result or the form.\<close>

datatype panel_view =
    FormView (form_input: jsstring) (button_disabled: bool) (form_error: "jsstring option")
  | YamlView jsstring

definition render_panel :: "panel \<Rightarrow> panel_view" where
  "render_panel s =
     (if automationCreated s then YamlView (automationYaml s)
      else FormView (userInput s) (isProcessing s \<or> userInput s = []) (errorMessage s))"

section \<open>The single-prompt card\<close>

record prompt_card = element +
  resultMessage :: jsstring

definition prompt_constructor :: prompt_card where
  "prompt_constructor =
     \<lparr> userInput = [], isProcessing = False, automationYaml = [], automationCreated = False,
       resultMessage = [] \<rparr>"

text \<open>
  One whole run of the card's \<open>createAutomation\<close>.  Both branches of the test on
  the success notification assign the same text, as in the source.
\<close>

definition createAutomation_card :: "hass \<Rightarrow> prompt_card \<Rightarrow> prompt_card \<times> effect list" where
  "createAutomation_card h s =
     (if trim (userInput s) = [] then (s, [])
      else
        let s1 = s\<lparr>isProcessing := True\<rparr>;
            d = trim (userInput s1)
        in case create_automation h d of
             Resolved result \<Rightarrow>
               (s1\<lparr>resultMessage := js_of ''Automation created successfully! You can find it in your automations.yaml file or in the automation editor.'',
                   isProcessing := False, automationCreated := True,
                   automationYaml :=
                     (if List.member (states h) success_marker
                      then or_else (latest_automation h)
                             (js_of ''Automation created successfully. The YAML is available in your Home Assistant automations.yaml file.'')
                      else or_else (latest_automation h)
                             (js_of ''Automation created successfully. The YAML is available in your Home Assistant automations.yaml file.''))\<rparr>,
                [CreateAutomationCall d])
           | Rejected error \<Rightarrow>
               (s1\<lparr>resultMessage := js_of ''Error creating automation: '' @
                                       or_else (message error) (js_of ''Unknown error''),
                   isProcessing := False, automationCreated := True,
                   automationYaml := js_of ''Failed to create automation. Please try again with a more detailed description.''\<rparr>,
                [CreateAutomationCall d]))"

definition startOver_card :: "prompt_card \<Rightarrow> prompt_card" where
  "startOver_card s = s\<lparr>userInput := [], automationYaml := [], automationCreated := False,
                        resultMessage := []\<rparr>"

text \<open>
  What the card shows: the result view with its message, or the prompt.  The prompt's
  Create button is bound \<open>?disabled=${!this.userInput}\<close>; the processing banner
  is shown below it while \<open>isProcessing\<close> is set.
\<close>

datatype card_view =
    PromptView (prompt_input: jsstring) (create_disabled: bool) (processing_shown: bool)
  | SuccessView (shown_message: jsstring) (shown_yaml: jsstring)

definition render_card :: "prompt_card \<Rightarrow> card_view" where
  "render_card s =
     (if automationCreated s then SuccessView (resultMessage s) (automationYaml s)
      else PromptView (userInput s) (userInput s = []) (isProcessing s))"

text \<open>The \<open>@input\<close> listener of the card's text area.\<close>

definition on_input_card :: "jsstring \<Rightarrow> prompt_card \<Rightarrow> prompt_card" where
  "on_input_card v s = s\<lparr>userInput := v\<rparr>"

text \<open>
  The synchronous part of the card's \<open>createAutomation\<close>: the entry test, the flag
  and the service call, whose promise is then pending.
\<close>

definition createAutomation_card_begin :: "prompt_card \<Rightarrow> prompt_card \<times> effect list" where
  "createAutomation_card_begin s =
     (if trim (userInput s) = [] then (s, [])
      else
        let s1 = s\<lparr>isProcessing := True\<rparr>;
            d = trim (userInput s1)
        in (s1, [CreateAutomationCall d]))"

text \<open>
  A click on the card's Create button as rendered in the given state: the button
  exists in the prompt view only, and a disabled button delivers no click.
\<close>

definition click_create_card :: "prompt_card \<Rightarrow> prompt_card \<times> effect list" where
  "click_create_card s =
     (case render_card s of
        PromptView v disabled p \<Rightarrow> if disabled then (s, []) else createAutomation_card_begin s
      | SuccessView m y \<Rightarrow> (s, []))"

section \<open>Sample states and host doubles\<close>

text \<open>The guided element right after the host attached it.\<close>

definition connected :: guided where
  "connected = state_of (connectedCallback constructor)"

definition answers5 :: "jsstring list" where
  "answers5 = [js_of ''lights on'', js_of ''at sunset'', js_of ''porch'', js_of ''no'', js_of ''no'']"

text \<open>The guided element after all five questions were answered.\<close>

definition answered :: guided where
  "answered = state_of (send_all answers5 connected)"

text \<open>A host whose calls all resolve without a value.\<close>

definition quiet_host :: hass where
  "quiet_host = \<lparr> create_automation = (\<lambda>d. Resolved NoResult),
                  get_automation_yaml = (\<lambda>k. Resolved NoResult),
                  callApi = Resolved [], states = [], latest_automation = None \<rparr>"



text \<open>A host whose creation call rejects.\<close>

definition rejecting_host :: hass where
  "rejecting_host =
     quiet_host\<lparr>create_automation := (\<lambda>d. Rejected (Error (Some (js_of ''quota exceeded''))))\<rparr>"

text \<open>Hosts whose creation call rejects with no message, and with an empty one.\<close>

definition silent_rejecting_host :: hass where
  "silent_rejecting_host = quiet_host\<lparr>create_automation := (\<lambda>d. Rejected (Error None))\<rparr>"

definition empty_rejecting_host :: hass where
  "empty_rejecting_host = quiet_host\<lparr>create_automation := (\<lambda>d. Rejected (Error (Some [])))\<rparr>"

definition typed_panel :: panel where
  "typed_panel = panel_constructor\<lparr>userInput := js_of ''porch light at sunset''\<rparr>"

text \<open>The card after the description was typed into its text area.\<close>

definition typed_card :: prompt_card where
  "typed_card = on_input_card (js_of ''porch light at sunset'') prompt_constructor"

section \<open>Facts about strings\<close>

lemma list_all_dropWhile: "list_all P (dropWhile P s) = list_all P s"
  by (induction s) auto

lemma trim_empty_iff: "trim s = [] \<longleftrightarrow> list_all is_js_whitespace s"
proof -
  have "trim s = [] \<longleftrightarrow> list_all is_js_whitespace (rev (dropWhile is_js_whitespace s))"
    by (simp add: trim_def dropWhile_eq_Nil_conv list_all_iff)
  also have "\<dots> \<longleftrightarrow> list_all is_js_whitespace (dropWhile is_js_whitespace s)"
    by (simp add: list_all_iff)
  finally show ?thesis by (simp add: list_all_dropWhile)
qed

lemma answers5_not_blank: "list_all (\<lambda>a. trim a \<noteq> []) answers5"
  by (simp add: answers5_def trim_def js_of_def is_js_whitespace_def)

section \<open>The conversation engine\<close>

lemma connected_fields:
  "currentStep connected = 0" "length (automationSteps connected) = 5"
  "\<not> isProcessing connected" "\<not> automationCreated connected"
  by (simp_all add: connected_def constructor_def connectedCallback_def)

lemma handleSend_accepts:
  assumes "trim (userInput s) \<noteq> []" and "currentStep s < length (automationSteps s)"
  shows "handleSend s = Normal
           (s\<lparr>conversation := conversation s @
                 (if Suc (currentStep s) < length (automationSteps s)
                  then [\<lparr>sender = User, content = userInput s\<rparr>,
                        \<lparr>sender = Assistant,
                          content = question (automationSteps s ! Suc (currentStep s))\<rparr>]
                  else [\<lparr>sender = User, content = userInput s\<rparr>]),
               automationSteps := (automationSteps s)[currentStep s :=
                  (automationSteps s ! currentStep s)\<lparr>answer := userInput s\<rparr>],
               userInput := [],
               currentStep := (if Suc (currentStep s) < length (automationSteps s)
                               then Suc (currentStep s) else length (automationSteps s))\<rparr>)"
  using assms by (auto simp add: handleSend_def Let_def)

lemma fire_currentStep:
  "currentStep (state_of (fire e t)) = currentStep t
   \<or> (e = SendClick \<and> trim (userInput t) \<noteq> [] \<and> currentStep t < length (automationSteps t)
        \<and> currentStep (state_of (fire e t)) =
            (if Suc (currentStep t) < length (automationSteps t) then Suc (currentStep t)
             else length (automationSteps t)))
   \<or> (e = StartOverClick \<and> currentStep (state_of (fire e t)) = 0)"
proof (cases e)
  case Connected
  then show ?thesis by (simp add: connectedCallback_def split: list.splits)
next
  case (InputEvent v)
  then show ?thesis by (simp add: on_input_def)
next
  case SendClick
  then show ?thesis by (auto simp add: handleSend_def Let_def)
next
  case CreateClick
  then show ?thesis by (simp add: createAutomation_begin_def)
next
  case (CreateSettled r)
  then show ?thesis by (cases r) (simp_all add: create_resolved_def create_rejected_def Let_def)
next
  case (ApiSettled r)
  then show ?thesis by (cases r) (simp_all add: api_resolved_def api_rejected_def)
next
  case StartOverClick
  then show ?thesis by (simp add: startOver_def Let_def split: list.splits)
qed

text \<open>
  Answering every remaining question: the run does not throw, the answers land in the
  steps in order, the engine ends past the last step, and the flags are untouched.
\<close>

lemma send_all_steps:
  assumes "list_all (\<lambda>a. trim a \<noteq> []) as"
    and "currentStep s + length as = length (automationSteps s)"
  shows "\<exists>s'. send_all as s = Normal s'
       \<and> automationSteps s' =
           take (currentStep s) (automationSteps s) @
           map2 (\<lambda>st a. st\<lparr>answer := a\<rparr>) (drop (currentStep s) (automationSteps s)) as
       \<and> (as \<noteq> [] \<longrightarrow> currentStep s' = length (automationSteps s'))
       \<and> isProcessing s' = isProcessing s
       \<and> automationCreated s' = automationCreated s"
  using assms
proof (induction as arbitrary: s)
  case Nil
  then show ?case by simp
next
  case (Cons a as)
  let ?t = "on_input a s"
  let ?i = "currentStep s"
  let ?steps = "automationSteps s"
  let ?x = "(?steps ! ?i)\<lparr>answer := a\<rparr>"
  have i: "?i < length ?steps" using Cons.prems(2) by simp
  have ta: "trim (userInput ?t) \<noteq> []" using Cons.prems(1) by (simp add: on_input_def)
  have ti: "currentStep ?t < length (automationSteps ?t)" using i by (simp add: on_input_def)
  obtain s1 where s1: "handleSend ?t = Normal s1"
    and steps1: "automationSteps s1 = ?steps[?i := ?x]"
    and cur1: "currentStep s1 = (if Suc ?i < length ?steps then Suc ?i else length ?steps)"
    and flags1: "isProcessing s1 = isProcessing s" "automationCreated s1 = automationCreated s"
    using handleSend_accepts [OF ta ti] by (simp add: on_input_def)
  have cur1': "currentStep s1 = Suc ?i" using cur1 i by auto
  have "list_all (\<lambda>a. trim a \<noteq> []) as" using Cons.prems(1) by simp
  moreover have "currentStep s1 + length as = length (automationSteps s1)"
    using cur1' steps1 Cons.prems(2) by simp
  ultimately obtain s' where s': "send_all as s1 = Normal s'"
    and steps': "automationSteps s' =
           take (currentStep s1) (automationSteps s1) @
           map2 (\<lambda>st a. st\<lparr>answer := a\<rparr>) (drop (currentStep s1) (automationSteps s1)) as"
    and cur': "as \<noteq> [] \<longrightarrow> currentStep s' = length (automationSteps s')"
    and flags': "isProcessing s' = isProcessing s1" "automationCreated s' = automationCreated s1"
    using Cons.IH [of s1] by blast
  have "send_all (a # as) s = Normal s'" using s1 s' by simp
  moreover have "automationSteps s' =
       take ?i ?steps @ map2 (\<lambda>st a. st\<lparr>answer := a\<rparr>) (drop ?i ?steps) (a # as)"
  proof -
    have "take (Suc ?i) (?steps[?i := ?x]) = take ?i ?steps @ [?x]"
      using i by (simp add: take_Suc_conv_app_nth)
    moreover have "drop (Suc ?i) (?steps[?i := ?x]) = drop (Suc ?i) ?steps"
      by simp
    moreover have "drop ?i ?steps = ?steps ! ?i # drop (Suc ?i) ?steps"
      using i by (simp add: Cons_nth_drop_Suc)
    ultimately show ?thesis using steps' steps1 cur1' by simp
  qed
  moreover have "currentStep s' = length (automationSteps s')"
  proof (cases as)
    case Nil
    then show ?thesis using s' cur1' steps1 Cons.prems(2) by simp
  next
    case (Cons b bs)
    then show ?thesis using cur' by simp
  qed
  ultimately show ?case using flags' flags1 by auto
qed

lemma answered_fields:
  "send_all answers5 connected = Normal answered"
  "currentStep answered = 5" "length (automationSteps answered) = 5"
  "\<not> isProcessing answered" "\<not> automationCreated answered"
proof -
  have b: "currentStep connected + length answers5 = length (automationSteps connected)"
    by (simp add: connected_fields answers5_def)
  have d: "answers5 \<noteq> []" by (simp add: answers5_def)
  obtain s' where run: "send_all answers5 connected = Normal s'"
    and steps: "automationSteps s' =
           take (currentStep connected) (automationSteps connected) @
           map2 (\<lambda>st a. st\<lparr>answer := a\<rparr>)
             (drop (currentStep connected) (automationSteps connected)) answers5"
    and cur: "currentStep s' = length (automationSteps s')"
    and flags: "\<not> isProcessing s'" "\<not> automationCreated s'"
    using send_all_steps [OF answers5_not_blank b] connected_fields(3,4) d by auto
  have eq: "answered = s'" by (simp add: answered_def run)
  have len: "length (automationSteps s') = 5"
    by (simp add: steps connected_fields answers5_def)
  show "send_all answers5 connected = Normal answered" by (simp add: eq run)
  show "currentStep answered = 5" by (simp add: eq cur len)
  show "length (automationSteps answered) = 5" by (simp add: eq len)
  show "\<not> isProcessing answered" by (simp add: eq flags)
  show "\<not> automationCreated answered" by (simp add: eq flags)
qed

text \<open>No handler adds, removes or rewords a question.\<close>

lemma handleSend_questions:
  "map question (automationSteps (state_of (handleSend s))) = map question (automationSteps s)"
proof -
  have "map question (xs[i := (xs ! i)\<lparr>answer := a\<rparr>]) = map question xs" for xs :: "step list" and i a
    by (cases "i < length xs") (simp_all add: map_update list_update_same_conv list_update_beyond)
  then show ?thesis by (simp add: handleSend_def Let_def)
qed

lemma startOver_questions:
  "map question (automationSteps (state_of (startOver s))) = map question (automationSteps s)"
  by (cases "automationSteps s") (simp_all add: startOver_def Let_def comp_def)

lemma fire_questions:
  "map question (automationSteps (state_of (fire e s))) = map question (automationSteps s)"
proof (cases e)
  case Connected
  then show ?thesis by (simp add: connectedCallback_def split: list.splits)
next
  case (InputEvent v)
  then show ?thesis by (simp add: on_input_def)
next
  case SendClick
  then show ?thesis by (simp add: handleSend_questions)
next
  case CreateClick
  then show ?thesis by (simp add: createAutomation_begin_def)
next
  case (CreateSettled r)
  then show ?thesis by (cases r) (simp_all add: create_resolved_def create_rejected_def Let_def)
next
  case (ApiSettled r)
  then show ?thesis by (cases r) (simp_all add: api_resolved_def api_rejected_def)
next
  case StartOverClick
  then show ?thesis by (simp add: startOver_questions)
qed

text \<open>A whole run of \<open>createAutomation\<close> is the click followed by the settlings.\<close>

lemma createAutomation_by_events:
  "fst (createAutomation h s) =
     (case create_automation h (fullDescription (automationSteps s)) of
        Resolved r \<Rightarrow>
          state_of (fire (ApiSettled (callApi h))
            (state_of (fire (CreateSettled (Resolved r)) (state_of (fire CreateClick s)))))
      | Rejected e \<Rightarrow>
          state_of (fire (CreateSettled (Rejected e)) (state_of (fire CreateClick s))))"
  by (cases "callApi h")
     (simp_all add: createAutomation_def createAutomation_begin_def Let_def split: settled.splits)

subsection \<open>The description sent in guided mode\<close>

lemma foldl_description:
  "foldl (\<lambda>acc st. acc @ question st @ [LF] @ answer st @ [LF, LF]) acc steps =
     acc @ concat (map (\<lambda>st. question st @ [LF] @ answer st @ [LF, LF]) steps)"
  by (induction steps arbitrary: acc) simp_all

lemma fullDescription_concat:
  "fullDescription steps = concat (map (\<lambda>st. question st @ [LF] @ answer st @ [LF, LF]) steps)"
  unfolding fullDescription_def using foldl_description [of "[]" steps] by simp

lemma map2_description:
  "length steps = length as \<Longrightarrow>
   concat (map (\<lambda>st. question st @ [LF] @ answer st @ [LF, LF])
            (map2 (\<lambda>st a. st\<lparr>answer := a\<rparr>) steps as)) =
   concat (map2 (\<lambda>st a. question st @ [LF] @ a @ [LF, LF]) steps as)"
  by (induction steps as rule: list_induct2) simp_all

text \<open>
  Claim C1.  In guided mode, once every one of the N questions has received a
  non-blank answer, the description handed to the creation call is the concatenation,
  in step order, of one block per step: the step's prompt, a line feed, the step's
  answer, and two line feeds (which end the answer's line and leave one blank line
  after the pair).  The text depends on the prompts and the answers only, so the same
  answers always give the same description.
\<close>

theorem guided_description:
  assumes "list_all (\<lambda>a. trim a \<noteq> []) as"
    and "length as = length (automationSteps s)"
    and "currentStep s = 0"
  shows "\<exists>s'. send_all as s = Normal s'
       \<and> fullDescription (automationSteps s') =
           concat (map2 (\<lambda>st a. question st @ [LF] @ a @ [LF, LF]) (automationSteps s) as)
       \<and> hd (snd (createAutomation h s')) =
           CreateAutomationCall
             (concat (map2 (\<lambda>st a. question st @ [LF] @ a @ [LF, LF]) (automationSteps s) as))"
proof -
  obtain s' where run: "send_all as s = Normal s'"
    and steps': "automationSteps s' = map2 (\<lambda>st a. st\<lparr>answer := a\<rparr>) (automationSteps s) as"
    using send_all_steps [of as s] assms by auto
  have d: "fullDescription (automationSteps s') =
           concat (map2 (\<lambda>st a. question st @ [LF] @ a @ [LF, LF]) (automationSteps s) as)"
    by (simp only: steps' fullDescription_concat map2_description [OF assms(2) [symmetric]])
  have "hd (snd (createAutomation h s')) = CreateAutomationCall (fullDescription (automationSteps s'))"
    by (simp add: createAutomation_def createAutomation_begin_def Let_def split: settled.splits)
  with run d show ?thesis by simp
qed

theorem guided_description_witness:
  "list_all (\<lambda>a. trim a \<noteq> []) answers5
   \<and> length answers5 = length (automationSteps connected)
   \<and> currentStep connected = 0
   \<and> (\<exists>s'. send_all answers5 connected = Normal s'
       \<and> fullDescription (automationSteps s') =
           concat (map2 (\<lambda>st a. question st @ [LF] @ a @ [LF, LF]) (automationSteps connected) answers5)
       \<and> hd (snd (createAutomation quiet_host s')) =
           CreateAutomationCall
             (concat (map2 (\<lambda>st a. question st @ [LF] @ a @ [LF, LF]) (automationSteps connected) answers5)))"
proof -
  have b: "length answers5 = length (automationSteps connected)"
    by (simp add: answers5_def connected_fields)
  have c: "currentStep connected = 0"
    by (simp add: connected_fields)
  show ?thesis
    using answers5_not_blank b c guided_description [OF answers5_not_blank b c, of quiet_host]
    by simp
qed

subsection \<open>Answering a question\<close>

text \<open>
  Claim C7.  When the typed text is not blank after trimming and the current step
  index i is below the number of steps N, \<open>handleSend\<close> stores the text as the
  answer of step i and appends a user message with it; if i + 1 < N it moves to step
  i + 1 and appends exactly one assistant message carrying that step's question; if
  i = N - 1 it moves to the terminal position N and appends nothing further.  No
  handler of the element moves the current step in any other way: every event leaves
  it where it is, except an accepted send (as above) and \<open>startOver\<close> (back to 0).
\<close>

theorem handleSend_transitions:
  assumes "trim (userInput s) \<noteq> []" and "currentStep s < length (automationSteps s)"
  shows "(\<exists>s'. handleSend s = Normal s'
        \<and> automationSteps s' = (automationSteps s)[currentStep s :=
             (automationSteps s ! currentStep s)\<lparr>answer := userInput s\<rparr>]
        \<and> (if Suc (currentStep s) < length (automationSteps s)
           then currentStep s' = Suc (currentStep s)
              \<and> conversation s' = conversation s @
                  [\<lparr>sender = User, content = userInput s\<rparr>,
                   \<lparr>sender = Assistant,
                     content = question (automationSteps s ! Suc (currentStep s))\<rparr>]
           else currentStep s' = length (automationSteps s)
              \<and> conversation s' = conversation s @ [\<lparr>sender = User, content = userInput s\<rparr>]))
       \<and> (currentStep (state_of (fire e t)) = currentStep t
          \<or> (e = SendClick \<and> trim (userInput t) \<noteq> []
               \<and> currentStep t < length (automationSteps t)
               \<and> currentStep (state_of (fire e t)) =
                   (if Suc (currentStep t) < length (automationSteps t) then Suc (currentStep t)
                    else length (automationSteps t)))
          \<or> (e = StartOverClick \<and> currentStep (state_of (fire e t)) = 0))"
proof
  show "\<exists>s'. handleSend s = Normal s'
        \<and> automationSteps s' = (automationSteps s)[currentStep s :=
             (automationSteps s ! currentStep s)\<lparr>answer := userInput s\<rparr>]
        \<and> (if Suc (currentStep s) < length (automationSteps s)
           then currentStep s' = Suc (currentStep s)
              \<and> conversation s' = conversation s @
                  [\<lparr>sender = User, content = userInput s\<rparr>,
                   \<lparr>sender = Assistant,
                     content = question (automationSteps s ! Suc (currentStep s))\<rparr>]
           else currentStep s' = length (automationSteps s)
              \<and> conversation s' = conversation s @ [\<lparr>sender = User, content = userInput s\<rparr>])"
    using handleSend_accepts [OF assms] by simp
next
  show "currentStep (state_of (fire e t)) = currentStep t
          \<or> (e = SendClick \<and> trim (userInput t) \<noteq> []
               \<and> currentStep t < length (automationSteps t)
               \<and> currentStep (state_of (fire e t)) =
                   (if Suc (currentStep t) < length (automationSteps t) then Suc (currentStep t)
                    else length (automationSteps t)))
          \<or> (e = StartOverClick \<and> currentStep (state_of (fire e t)) = 0)"
    by (rule fire_currentStep)
qed

theorem handleSend_transitions_witness:
  "trim (userInput (on_input (js_of ''lights on'') connected)) \<noteq> []
   \<and> currentStep (on_input (js_of ''lights on'') connected)
       < length (automationSteps (on_input (js_of ''lights on'') connected))
   \<and> (\<exists>s'. handleSend (on_input (js_of ''lights on'') connected) = Normal s'
        \<and> currentStep s' = 1
        \<and> answer (automationSteps s' ! 0) = js_of ''lights on''
        \<and> conversation s' = conversation connected @
             [\<lparr>sender = User, content = js_of ''lights on''\<rparr>,
              \<lparr>sender = Assistant, content = question (automationSteps connected ! 1)\<rparr>])
   \<and> currentStep (state_of (fire CreateClick answered)) = currentStep answered"
proof -
  let ?s = "on_input (js_of ''lights on'') connected"
  have f: "userInput ?s = js_of ''lights on''" "currentStep ?s = 0"
    "automationSteps ?s = automationSteps connected" "conversation ?s = conversation connected"
    by (simp_all add: on_input_def connected_fields)
  have "trim (js_of ''lights on'') \<noteq> []"
    by (simp add: trim_def js_of_def is_js_whitespace_def)
  then have a: "trim (userInput ?s) \<noteq> []"
    by (simp add: f)
  have b: "currentStep ?s < length (automationSteps ?s)"
    by (simp add: f connected_fields)
  have c: "currentStep (state_of (fire CreateClick answered)) = currentStep answered"
    by (simp add: createAutomation_begin_def)
  show ?thesis
    using a b c handleSend_transitions [OF a b, of CreateClick answered]
    by (auto simp add: f connected_fields)
qed

subsection \<open>Rejecting blank input\<close>

text \<open>
  Claim C8.  In every state, when the typed text is empty or consists of white space
  only (so that trimming leaves nothing), \<open>handleSend\<close> returns at once: the state
  is the one it was called in, so the current step, every step's answer and the
  message log are those from before the text was typed.
\<close>

theorem handleSend_blank_unchanged:
  assumes "list_all is_js_whitespace v"
  shows "trim v = []
       \<and> handleSend (on_input v s) = Normal (on_input v s)
       \<and> currentStep (on_input v s) = currentStep s
       \<and> automationSteps (on_input v s) = automationSteps s
       \<and> conversation (on_input v s) = conversation s"
  using assms by (simp add: handleSend_def on_input_def trim_empty_iff)

theorem handleSend_blank_unchanged_witness:
  "list_all is_js_whitespace (js_of ''   '')
   \<and> trim (js_of ''   '') = []
   \<and> handleSend (on_input (js_of ''   '') answered) = Normal (on_input (js_of ''   '') answered)
   \<and> currentStep (on_input (js_of ''   '') answered) = currentStep answered
   \<and> automationSteps (on_input (js_of ''   '') answered) = automationSteps answered
   \<and> conversation (on_input (js_of ''   '') answered) = conversation answered"
proof -
  have a: "list_all is_js_whitespace (js_of ''   '')"
    by (simp add: js_of_def is_js_whitespace_def)
  show ?thesis using a handleSend_blank_unchanged [OF a, of answered] by simp
qed

subsection \<open>Starting over\<close>

text \<open>
  Claim C9.  Whatever the state before (any step index, answers and log), as long
  as the element has its steps (a first step exists), \<open>startOver\<close> completes and
  leaves the current step at index 0, every step's answer empty, the questions as
  they were, and a message log of exactly one entry: an assistant message whose
  content is the first step's question.
\<close>

theorem startOver_resets:
  assumes "automationSteps s \<noteq> []"
  shows "\<exists>s'. startOver s = Normal s'
       \<and> currentStep s' = 0
       \<and> list_all (\<lambda>st. answer st = []) (automationSteps s')
       \<and> map question (automationSteps s') = map question (automationSteps s)
       \<and> conversation s' = [\<lparr>sender = Assistant, content = question (hd (automationSteps s))\<rparr>]"
  using assms
  by (cases "automationSteps s") (simp_all add: startOver_def Let_def list_all_iff comp_def)

theorem startOver_resets_witness:
  "automationSteps answered \<noteq> []
   \<and> (\<exists>s'. startOver answered = Normal s'
       \<and> currentStep s' = 0
       \<and> list_all (\<lambda>st. answer st = []) (automationSteps s')
       \<and> map question (automationSteps s') = map question (automationSteps answered)
       \<and> conversation s' =
           [\<lparr>sender = Assistant, content = question (hd (automationSteps answered))\<rparr>])"
proof -
  have a: "automationSteps answered \<noteq> []"
    using answered_fields(3) by auto
  show ?thesis using a startOver_resets [OF a] by simp
qed

subsection \<open>Rendering after the last answer\<close>

lemma renderConversation_complete:
  "\<not> isProcessing s \<Longrightarrow> currentStep s = length (automationSteps s) \<Longrightarrow>
   renderConversation s = Inl TypeError"
  by (simp add: renderConversation_def)

text \<open>
  Claim C10.  The claim asks that whenever the conversation view is rendered while
  not processing, the current step is an index of the step array.  The state reached
  from the freshly attached element by answering all five questions breaks this: the
  current step equals the number of steps, nothing is processing, the result view is
  not selected, and rendering the conversation throws on the out-of-range read.
\<close>

theorem render_after_last_answer_throws:
  "send_all answers5 connected = Normal answered
   \<and> currentStep answered = 5
   \<and> length (automationSteps answered) = 5
   \<and> \<not> isProcessing answered
   \<and> \<not> automationCreated answered
   \<and> renderConversation answered = Inl TypeError
   \<and> render answered = Inl TypeError"
proof -
  have "renderConversation answered = Inl TypeError"
    using answered_fields by (simp add: renderConversation_complete)
  then show ?thesis using answered_fields by (simp add: render_def)
qed

section \<open>The submission orchestrator\<close>

lemma typed_panel_guard:
  "trim (userInput typed_panel) \<noteq> []" "\<not> isProcessing typed_panel"
  "\<not> automationCreated typed_panel"
  by (simp_all add: typed_panel_def panel_constructor_def trim_def js_of_def is_js_whitespace_def)

lemma typed_card_guard: "trim (userInput typed_card) \<noteq> []"
  by (simp add: typed_card_def on_input_card_def prompt_constructor_def trim_def js_of_def
      is_js_whitespace_def)

lemma generateAutomation_reentrant:
  "isProcessing s \<Longrightarrow> generateAutomation h s = (s, [])"
  by (simp add: generateAutomation_def)

lemma generateAutomation_leaves_processing:
  "\<not> isProcessing s \<Longrightarrow> \<not> isProcessing (fst (generateAutomation h s))"
  by (simp add: generateAutomation_def handleError_def Let_def split: settled.splits)

lemma createAutomation_card_leaves_processing:
  "trim (userInput c) \<noteq> [] \<Longrightarrow> \<not> isProcessing (fst (createAutomation_card h c))"
  by (simp add: createAutomation_card_def Let_def split: settled.splits)

subsection \<open>A creation call that already carries the result\<close>




subsection \<open>A fetch that never returns a value\<close>

text \<open>
  Claim C3.  When the creation call resolves and \<open>get_automation_yaml\<close> resolves
  without a YAML text on both attempts the panel makes, the submission ends as a
  success without result: the second attempt comes after a further 1000 ms delay, the
  result view is selected, processing is over, no error message is set, and the text
  shown is one of the two fixed notices (chosen by the success notification among the
  host's states), not a fetched YAML.
\<close>

theorem fetch_never_returns_pending:
  assumes "trim (userInput s) \<noteq> []" and "\<not> isProcessing s"
    and "create_automation h (userInput s) = Resolved r"
    and "get_automation_yaml h 0 = Resolved r0" and "\<not> has_yaml r0"
    and "get_automation_yaml h 1 = Resolved r1" and "\<not> has_yaml r1"
  shows "snd (generateAutomation h s) =
           [CreateAutomationCall (userInput s), SetTimeout 2000, GetAutomationYamlCall,
            SetTimeout 1000, GetAutomationYamlCall]
       \<and> automationCreated (fst (generateAutomation h s))
       \<and> \<not> isProcessing (fst (generateAutomation h s))
       \<and> errorMessage (fst (generateAutomation h s)) = None
       \<and> automationYaml (fst (generateAutomation h s)) =
           (if list_ex (\<lambda>key. js_includes key success_marker) (states h)
            then js_of ''Automation was created successfully and added to your automations.yaml file.''
            else js_of ''Automation has been processed. Please check your automations.yaml file.'')"
  using assms by (simp add: generateAutomation_def Let_def)

theorem fetch_never_returns_pending_witness:
  "trim (userInput typed_panel) \<noteq> [] \<and> \<not> isProcessing typed_panel
   \<and> create_automation quiet_host (userInput typed_panel) = Resolved NoResult
   \<and> get_automation_yaml quiet_host 0 = Resolved NoResult \<and> \<not> has_yaml NoResult
   \<and> get_automation_yaml quiet_host 1 = Resolved NoResult
   \<and> snd (generateAutomation quiet_host typed_panel) =
           [CreateAutomationCall (userInput typed_panel), SetTimeout 2000, GetAutomationYamlCall,
            SetTimeout 1000, GetAutomationYamlCall]
   \<and> automationCreated (fst (generateAutomation quiet_host typed_panel))
   \<and> \<not> isProcessing (fst (generateAutomation quiet_host typed_panel))
   \<and> errorMessage (fst (generateAutomation quiet_host typed_panel)) = None
   \<and> automationYaml (fst (generateAutomation quiet_host typed_panel)) =
       js_of ''Automation has been processed. Please check your automations.yaml file.''"
proof -
  have a: "create_automation quiet_host (userInput typed_panel) = Resolved NoResult"
    by (simp add: quiet_host_def)
  have b: "get_automation_yaml quiet_host 0 = Resolved NoResult"
    by (simp add: quiet_host_def)
  have c: "get_automation_yaml quiet_host 1 = Resolved NoResult"
    by (simp add: quiet_host_def)
  have d: "\<not> has_yaml NoResult" by simp
  have e: "states quiet_host = []" by (simp add: quiet_host_def)
  show ?thesis
    using typed_panel_guard(1,2) a b c
      fetch_never_returns_pending [OF typed_panel_guard(1) typed_panel_guard(2) a b d c d]
    by (simp add: e)
qed

subsection \<open>A creation call that rejects\<close>

text \<open>
  Claim C4.  When the creation call rejects, the submission ends at once in failure:
  the only host call made is the one creation call (no retry of it, no timer and no
  fetch), processing is over, the result view is not selected by it, and the error
  message is \<open>Error: \<close> followed by the message of the rejection when one is
  supplied and not empty, and the fixed text \<open>Error: Failed to create automation\<close>
  when the rejection has no message or an empty one.
\<close>

theorem creation_rejected_failure:
  assumes "trim (userInput s) \<noteq> []" and "\<not> isProcessing s"
    and "create_automation h (userInput s) = Rejected error"
  shows "snd (generateAutomation h s) = [CreateAutomationCall (userInput s)]
       \<and> fst (generateAutomation h s) =
           s\<lparr>isProcessing := False,
             errorMessage := Some
               (case message error of
                  None \<Rightarrow> js_of ''Error: Failed to create automation''
                | Some m \<Rightarrow> if m = [] then js_of ''Error: Failed to create automation''
                            else js_of ''Error: '' @ m)\<rparr>
       \<and> (message error = None \<or> message error = Some [] \<longrightarrow>
            errorMessage (fst (generateAutomation h s)) =
              Some (js_of ''Error: Failed to create automation''))
       \<and> (\<forall>m. message error = Some m \<and> m \<noteq> [] \<longrightarrow>
            errorMessage (fst (generateAutomation h s)) = Some (js_of ''Error: '' @ m))
       \<and> \<not> isProcessing (fst (generateAutomation h s))
       \<and> automationCreated (fst (generateAutomation h s)) = automationCreated s"
proof -
  have g: "js_of ''Error: '' @ js_of ''Failed to create automation'' =
           js_of ''Error: Failed to create automation''"
    by (simp add: js_of_def)
  have run: "generateAutomation h s = (handleError error (s\<lparr>isProcessing := True, errorMessage := None\<rparr>),
               [CreateAutomationCall (userInput s)])"
    using assms by (simp add: generateAutomation_def Let_def)
  show ?thesis
  proof (cases "message error")
    case None
    then show ?thesis by (simp add: run handleError_def g)
  next
    case (Some m)
    then show ?thesis by (cases "m = []") (simp_all add: run handleError_def g)
  qed
qed

theorem creation_rejected_failure_witness:
  "trim (userInput typed_panel) \<noteq> [] \<and> \<not> isProcessing typed_panel
   \<and> create_automation rejecting_host (userInput typed_panel) =
       Rejected (Error (Some (js_of ''quota exceeded'')))
   \<and> snd (generateAutomation rejecting_host typed_panel) =
       [CreateAutomationCall (userInput typed_panel)]
   \<and> fst (generateAutomation rejecting_host typed_panel) =
       typed_panel\<lparr>isProcessing := False,
         errorMessage := Some (js_of ''Error: quota exceeded'')\<rparr>
   \<and> create_automation silent_rejecting_host (userInput typed_panel) = Rejected (Error None)
   \<and> snd (generateAutomation silent_rejecting_host typed_panel) =
       [CreateAutomationCall (userInput typed_panel)]
   \<and> fst (generateAutomation silent_rejecting_host typed_panel) =
       typed_panel\<lparr>isProcessing := False,
         errorMessage := Some (js_of ''Error: Failed to create automation'')\<rparr>
   \<and> create_automation empty_rejecting_host (userInput typed_panel) = Rejected (Error (Some []))
   \<and> snd (generateAutomation empty_rejecting_host typed_panel) =
       [CreateAutomationCall (userInput typed_panel)]
   \<and> fst (generateAutomation empty_rejecting_host typed_panel) =
       typed_panel\<lparr>isProcessing := False,
         errorMessage := Some (js_of ''Error: Failed to create automation'')\<rparr>"
proof -
  have a: "create_automation rejecting_host (userInput typed_panel) =
             Rejected (Error (Some (js_of ''quota exceeded'')))"
    by (simp add: rejecting_host_def)
  have a': "create_automation silent_rejecting_host (userInput typed_panel) = Rejected (Error None)"
    by (simp add: silent_rejecting_host_def)
  have a'': "create_automation empty_rejecting_host (userInput typed_panel) =
               Rejected (Error (Some []))"
    by (simp add: empty_rejecting_host_def)
  have b: "js_of ''quota exceeded'' \<noteq> []"
    "js_of ''Error: '' @ js_of ''quota exceeded'' = js_of ''Error: quota exceeded''"
    by (simp_all add: js_of_def)
  show ?thesis
    using typed_panel_guard(1,2) a a' a''
      creation_rejected_failure [OF typed_panel_guard(1) typed_panel_guard(2) a]
      creation_rejected_failure [OF typed_panel_guard(1) typed_panel_guard(2) a']
      creation_rejected_failure [OF typed_panel_guard(1) typed_panel_guard(2) a'']
    by (simp add: b)
qed

subsection \<open>Submitting again while a submission is in flight\<close>

text \<open>
  The guided element's \<open>createAutomation\<close> has no test of \<open>isProcessing\<close>, but
  its only caller is the Create button, and whenever the conversation view renders
  with that button, the button is disabled: the view renders at the terminal step only
  while processing.
\<close>

lemma guided_create_button_disabled:
  "renderConversation s = Inr v \<Longrightarrow> create_button v = None \<or> create_button v = Some True"
  by (auto simp add: renderConversation_def split: if_splits)

text \<open>A whole run of the card's \<open>createAutomation\<close> begins with its synchronous part.\<close>

lemma createAutomation_card_begins:
  "snd (createAutomation_card h s) = snd (createAutomation_card_begin s)"
  "isProcessing (fst (createAutomation_card_begin s)) =
     (if trim (userInput s) = [] then isProcessing s else True)"
  by (simp_all add: createAutomation_card_def createAutomation_card_begin_def Let_def
      split: settled.splits)

text \<open>
  Claim C5.  The panel's \<open>generateAutomation\<close> returns at once when
  \<open>isProcessing\<close> is set: state unchanged, no host call.  The single-prompt card
  does not: with a description typed, a click on its Create button sets
  \<open>isProcessing\<close> and issues the creation call; the card then renders the prompt
  with the button still enabled, and a second click, while the first call is pending,
  passes the handler's only test (non-blank input) and issues a second creation call.
\<close>

theorem card_second_click_creates_again:
  "click_create_card typed_card =
     (typed_card\<lparr>isProcessing := True\<rparr>, [CreateAutomationCall (js_of ''porch light at sunset'')])
   \<and> render_card (typed_card\<lparr>isProcessing := True\<rparr>) =
       PromptView (js_of ''porch light at sunset'') False True
   \<and> click_create_card (typed_card\<lparr>isProcessing := True\<rparr>) =
       (typed_card\<lparr>isProcessing := True\<rparr>, [CreateAutomationCall (js_of ''porch light at sunset'')])
   \<and> generateAutomation quiet_host (typed_panel\<lparr>isProcessing := True\<rparr>) =
       (typed_panel\<lparr>isProcessing := True\<rparr>, [])"
proof -
  have t: "trim (js_of ''porch light at sunset'') = js_of ''porch light at sunset''"
    "js_of ''porch light at sunset'' \<noteq> []"
    by (simp_all add: trim_def js_of_def is_js_whitespace_def)
  have f: "userInput typed_card = js_of ''porch light at sunset''"
    "\<not> automationCreated typed_card"
    by (simp_all add: typed_card_def on_input_card_def prompt_constructor_def)
  have 1: "click_create_card typed_card =
     (typed_card\<lparr>isProcessing := True\<rparr>, [CreateAutomationCall (js_of ''porch light at sunset'')])"
    by (simp add: click_create_card_def render_card_def createAutomation_card_begin_def Let_def f t)
  have 2: "render_card (typed_card\<lparr>isProcessing := True\<rparr>) =
       PromptView (js_of ''porch light at sunset'') False True"
    by (simp add: render_card_def f t)
  have 3: "click_create_card (typed_card\<lparr>isProcessing := True\<rparr>) =
       (typed_card\<lparr>isProcessing := True\<rparr>, [CreateAutomationCall (js_of ''porch light at sunset'')])"
    by (simp add: click_create_card_def render_card_def createAutomation_card_begin_def Let_def f t)
  have 4: "generateAutomation quiet_host (typed_panel\<lparr>isProcessing := True\<rparr>) =
       (typed_panel\<lparr>isProcessing := True\<rparr>, [])"
    by (simp add: generateAutomation_reentrant)
  show ?thesis using 1 2 3 4 by simp
qed

subsection \<open>Leaving the processing phase\<close>

text \<open>
  Claim C6, as stated, fails for the single-prompt card: when its creation call
  rejects, the card selects the result view (\<open>automationCreated\<close> is set) and shows
  the error text there.
\<close>

theorem card_rejection_shows_result_counterexample:
  "create_automation rejecting_host (trim (userInput typed_card)) =
     Rejected (Error (Some (js_of ''quota exceeded'')))
   \<and> automationCreated (fst (createAutomation_card rejecting_host typed_card))
   \<and> render_card (fst (createAutomation_card rejecting_host typed_card)) =
       SuccessView (js_of ''Error creating automation: quota exceeded'')
         (js_of ''Failed to create automation. Please try again with a more detailed description.'')"
  using typed_card_guard
  by (simp add: createAutomation_card_def rejecting_host_def render_card_def Let_def js_of_def)

text \<open>
  Claim C6, amended.  Every run of a submission that passes the entry test ends with
  \<open>isProcessing\<close> cleared, in the panel and in the card, however the host's calls
  settle.  When the creation call rejects, the error text is shown: the panel, started
  from the form, stays on the form (never the result view) with the error message
  below it; the card shows the error text in its result view.
\<close>

theorem submit_leaves_processing:
  assumes "trim (userInput p) \<noteq> []" and "\<not> isProcessing p" and "\<not> automationCreated p"
    and "trim (userInput c) \<noteq> []"
  shows "\<not> isProcessing (fst (generateAutomation h p))
       \<and> \<not> isProcessing (fst (createAutomation_card h c))
       \<and> (create_automation h (userInput p) = Rejected error \<longrightarrow>
            render_panel (fst (generateAutomation h p)) =
              FormView (userInput p) False
                (Some (js_of ''Error: '' @ or_else (message error) (js_of ''Failed to create automation''))))
       \<and> (create_automation h (trim (userInput c)) = Rejected error \<longrightarrow>
            render_card (fst (createAutomation_card h c)) =
              SuccessView
                (js_of ''Error creating automation: '' @ or_else (message error) (js_of ''Unknown error''))
                (js_of ''Failed to create automation. Please try again with a more detailed description.''))"
proof -
  have 1: "\<not> isProcessing (fst (generateAutomation h p))"
    using assms(2) by (rule generateAutomation_leaves_processing)
  have 2: "\<not> isProcessing (fst (createAutomation_card h c))"
    using assms(4) by (rule createAutomation_card_leaves_processing)
  have ne: "userInput p \<noteq> []" using assms(1) by (auto simp add: trim_def)
  have 3: "create_automation h (userInput p) = Rejected error \<longrightarrow>
            render_panel (fst (generateAutomation h p)) =
              FormView (userInput p) False
                (Some (js_of ''Error: '' @ or_else (message error) (js_of ''Failed to create automation'')))"
    using assms(1-3) ne by (simp add: generateAutomation_def handleError_def render_panel_def Let_def)
  have 4: "create_automation h (trim (userInput c)) = Rejected error \<longrightarrow>
            render_card (fst (createAutomation_card h c)) =
              SuccessView
                (js_of ''Error creating automation: '' @ or_else (message error) (js_of ''Unknown error''))
                (js_of ''Failed to create automation. Please try again with a more detailed description.'')"
    using assms(4) by (simp add: createAutomation_card_def render_card_def Let_def)
  show ?thesis using 1 2 3 4 by blast
qed

theorem submit_leaves_processing_witness:
  "trim (userInput typed_panel) \<noteq> [] \<and> \<not> isProcessing typed_panel
   \<and> \<not> automationCreated typed_panel \<and> trim (userInput typed_card) \<noteq> []
   \<and> create_automation rejecting_host (userInput typed_panel) =
       Rejected (Error (Some (js_of ''quota exceeded'')))
   \<and> create_automation rejecting_host (trim (userInput typed_card)) =
       Rejected (Error (Some (js_of ''quota exceeded'')))
   \<and> \<not> isProcessing (fst (generateAutomation rejecting_host typed_panel))
   \<and> \<not> isProcessing (fst (createAutomation_card rejecting_host typed_card))
   \<and> render_panel (fst (generateAutomation rejecting_host typed_panel)) =
       FormView (userInput typed_panel) False
         (Some (js_of ''Error: '' @ or_else (Some (js_of ''quota exceeded''))
            (js_of ''Failed to create automation'')))
   \<and> render_card (fst (createAutomation_card rejecting_host typed_card)) =
       SuccessView
         (js_of ''Error creating automation: '' @ or_else (Some (js_of ''quota exceeded''))
            (js_of ''Unknown error''))
         (js_of ''Failed to create automation. Please try again with a more detailed description.'')"
proof -
  have a: "create_automation rejecting_host (userInput typed_panel) =
             Rejected (Error (Some (js_of ''quota exceeded'')))"
    by (simp add: rejecting_host_def)
  have b: "create_automation rejecting_host (trim (userInput typed_card)) =
             Rejected (Error (Some (js_of ''quota exceeded'')))"
    by (simp add: rejecting_host_def)
  show ?thesis
    using typed_panel_guard typed_card_guard a b
      submit_leaves_processing [OF typed_panel_guard typed_card_guard,
        of rejecting_host "Error (Some (js_of ''quota exceeded''))"]
    by simp
qed

end
